theory Spec2Isabelle
  imports Complex_Main
begin

section \<open>Dual-box flux reconstruction of ViennaSHE (viennashe/util/dual\_box\_flux.hpp)\<close>

text \<open>
  The header interpolates the normal flux components known on the facets of a cell to a
  flux vector of the cell. It reads the mesh through the C interface of ViennaGrid, calls
  two functors of the caller (the facet accessor and the cell setter) and the dense solver
  \<^verbatim>\<open>viennashe::solvers::solve\<close>.

  Numbers of type \<^verbatim>\<open>double\<close> and \<^verbatim>\<open>viennagrid_numeric\<close> are embedded as
  real numbers: the properties below are about signs, comparisons, the shape of the
  assembled sums and the control flow, not about rounding. Element ids are integers,
  dimensions natural numbers.
\<close>

subsection \<open>Errors and observable calls\<close>

text \<open>
  Every \<^verbatim>\<open>throw\<close> of the header is a value of \<open>error\<close>:
  \<open>UnsupportedDimension\<close> is the \<^verbatim>\<open>std::runtime_error\<close> of
  \<^verbatim>\<open>outer_cell_normal_at_facet\<close> ("TODO: implement for 2d and 3d!"),
  \<open>NotImplemented\<close> the one of the whole-mesh overload ("Not implemented!").
  \<open>SingularSystem\<close> and \<open>NotConverged\<close> are the failures of the linear solve,
  \<open>AccessorFailure\<close> stands for an exception of the caller's facet accessor, and
  \<open>OutOfBounds\<close> marks an access outside a \<^verbatim>\<open>std::vector\<close>, which C++ leaves
  undefined.
\<close>

datatype error =
    UnsupportedDimension
  | NotImplemented
  | SingularSystem
  | NotConverged
  | AccessorFailure
  | OutOfBounds

type_synonym element_id = int

text \<open>
  The calls of the two functors are recorded in a trace, in the order in which they happen.
\<close>

datatype event =
    FacetAccess element_id
  | CellSet element_id "real list"

fun is_CellSet :: "event \<Rightarrow> bool" where
  "is_CellSet (CellSet c v) = True"
| "is_CellSet (FacetAccess f) = False"

subsection \<open>The mesh as the header sees it\<close>

text \<open>
  The ViennaGrid functions the header calls are the fields of the mesh:
  \<^verbatim>\<open>viennagrid_mesh_cell_dimension_get\<close>, \<^verbatim>\<open>viennagrid_mesh_geometric_dimension_get\<close>,
  \<^verbatim>\<open>viennagrid_element_centroid\<close> (the coordinates it stores through its pointer
  argument), \<^verbatim>\<open>viennagrid_element_boundary_elements\<close> and
  \<^verbatim>\<open>viennagrid_element_coboundary_elements\<close> (the range between the two returned
  pointers, for an element and a topological dimension).
\<close>

record viennagrid_mesh =
  cell_dimension :: nat
  geometric_dimension :: nat
  element_centroid :: "element_id \<Rightarrow> real list"
  boundary_elements :: "element_id \<Rightarrow> int \<Rightarrow> element_id list"
  coboundary_elements :: "element_id \<Rightarrow> int \<Rightarrow> element_id list"

record device =
  mesh :: viennagrid_mesh

text \<open>
  Writing the values \<open>xs\<close> from index 0 on into a vector \<open>buf\<close>: the slots behind them
  keep their content, and writing behind the end of the vector is \<open>OutOfBounds\<close>.
\<close>

definition store_into :: "real list \<Rightarrow> real list \<Rightarrow> error + real list" where
  "store_into buf xs =
     (if length xs \<le> length buf then Inr (xs @ drop (length xs) buf) else Inl OutOfBounds)"

subsection \<open>The outer normal of a facet (lines 44--60 and 130--144)\<close>

text \<open>
  The 1d case: both centroids are stored into zero-initialised vectors of three entries
  and their first entries compared.
\<close>

definition detail_outer_cell_normal_at_facet ::
  "viennagrid_mesh \<Rightarrow> element_id \<Rightarrow> element_id \<Rightarrow> error + real list" where
  "detail_outer_cell_normal_at_facet m cell facet =
     (case store_into (replicate 3 0) (element_centroid m cell) of
        Inl e \<Rightarrow> Inl e
      | Inr centroid_cell \<Rightarrow>
          (case store_into (replicate 3 0) (element_centroid m facet) of
             Inl e \<Rightarrow> Inl e
           | Inr centroid_facet \<Rightarrow>
               (let ret = replicate 3 0
                in if centroid_cell ! 0 < centroid_facet ! 0
                   then Inr (ret[0 := 1])
                   else Inr (ret[0 := - 1]))))"

definition outer_cell_normal_at_facet ::
  "viennagrid_mesh \<Rightarrow> element_id \<Rightarrow> element_id \<Rightarrow> error + real list" where
  "outer_cell_normal_at_facet m cell facet =
     (let cell_dim = cell_dimension m
      in if cell_dim = 1
         then detail_outer_cell_normal_at_facet m cell facet
         else Inl UnsupportedDimension)"

subsection \<open>Reconstruction for one cell (lines 157--216)\<close>

text \<open>
  The loop over the facets of the cell (lines 182--194). \<open>facet_ctr\<close> counts the facets
  done; \<open>normals\<close> and \<open>flux_contributions\<close> are the two vectors of \<open>facet_num\<close> entries
  the loop fills. The accessor is called first, then the normal is computed, then the
  first cell of the facet's coboundary is compared with the cell. Reading the first cell
  of an empty coboundary range is \<open>OutOfBounds\<close>.
\<close>

fun facet_loop ::
  "viennagrid_mesh \<Rightarrow> element_id \<Rightarrow> (element_id \<Rightarrow> error + real) \<Rightarrow> element_id list \<Rightarrow>
   nat \<Rightarrow> real list list \<Rightarrow> real list \<Rightarrow> event list \<Rightarrow>
   (error + real list list \<times> real list) \<times> event list" where
  "facet_loop m cell facet_access [] facet_ctr normals flux_contributions tr =
     (Inr (normals, flux_contributions), tr)"
| "facet_loop m cell facet_access (focit # rest) facet_ctr normals flux_contributions tr =
     (case facet_access focit of
        Inl e \<Rightarrow> (Inl e, tr @ [FacetAccess focit])
      | Inr v \<Rightarrow>
          (case outer_cell_normal_at_facet m cell focit of
             Inl e \<Rightarrow> (Inl e, tr @ [FacetAccess focit])
           | Inr n \<Rightarrow>
               (case coboundary_elements m focit (int (cell_dimension m)) of
                  [] \<Rightarrow> (Inl OutOfBounds, tr @ [FacetAccess focit])
                | first_cell # _ \<Rightarrow>
                    (let fluxes1 = flux_contributions[facet_ctr := v];
                         normals1 = normals[facet_ctr := n];
                         fluxes2 = (if first_cell \<noteq> cell
                                    then fluxes1[facet_ctr := fluxes1 ! facet_ctr * (- 1)]
                                    else fluxes1)
                     in facet_loop m cell facet_access rest (Suc facet_ctr) normals1 fluxes2
                          (tr @ [FacetAccess focit])))))"

text \<open>
  The facets of the cell and the state in which the loop starts (lines 162--180).
\<close>

definition cell_facets :: "viennagrid_mesh \<Rightarrow> element_id \<Rightarrow> element_id list" where
  "cell_facets m cell = boundary_elements m cell (int (cell_dimension m) - 1)"

definition gather_facets ::
  "device \<Rightarrow> element_id \<Rightarrow> (element_id \<Rightarrow> error + real) \<Rightarrow> event list \<Rightarrow>
   (error + real list list \<times> real list) \<times> event list" where
  "gather_facets dev cell facet_access tr =
     (let facets = cell_facets (mesh dev) cell;
          facet_num = length facets
      in facet_loop (mesh dev) cell facet_access facets 0
           (replicate facet_num []) (replicate facet_num 0) tr)"

text \<open>
  Modelled from the spec: the class \<^verbatim>\<open>viennashe::math::dense_matrix\<close>
  (viennashe/math/linalg\_util.hpp) is not among the sources. A matrix is kept as the list
  of its rows, \<open>M(i, j)\<close> is entry \<open>j\<close> of row \<open>i\<close>, and a new matrix holds zeros, as
  the accumulation \<open>M = \<Sum> (n_f \<otimes> n_f)\<close> of the specification needs it.
\<close>

definition dense_matrix :: "nat \<Rightarrow> nat \<Rightarrow> real list list" where
  "dense_matrix rows cols = replicate rows (replicate cols 0)"

text \<open>
  The assembly of the matrix and the right hand side (lines 196--206): \<open>M\<close> is a new
  \<open>geo_dim\<close> by \<open>geo_dim\<close> matrix, \<open>b\<close> a zero vector of \<open>geo_dim\<close> entries, and the inner
  loops add one product per facet \<open>k\<close> to an entry. They read \<open>normals[k][i]\<close> for every
  \<open>i\<close> below the geometric dimension, which is \<open>OutOfBounds\<close> as soon as one normal is
  shorter than that.
\<close>

definition assemble_M :: "nat \<Rightarrow> real list list \<Rightarrow> real list list" where
  "assemble_M geo_dim normals =
     map (\<lambda>i. map (\<lambda>j. foldl (\<lambda>acc k. acc + normals ! k ! i * normals ! k ! j)
                          (dense_matrix geo_dim geo_dim ! i ! j) [0..<length normals])
                 [0..<geo_dim])
         [0..<geo_dim]"

definition assemble_b :: "nat \<Rightarrow> real list list \<Rightarrow> real list \<Rightarrow> real list" where
  "assemble_b geo_dim normals flux_contributions =
     map (\<lambda>i. foldl (\<lambda>acc k. acc + normals ! k ! i * flux_contributions ! k)
                 (replicate geo_dim 0 ! i) [0..<length normals])
         [0..<geo_dim]"

definition assemble ::
  "nat \<Rightarrow> real list list \<Rightarrow> real list \<Rightarrow> error + real list list \<times> real list" where
  "assemble geo_dim normals flux_contributions =
     (if list_all (\<lambda>n. geo_dim \<le> length n) normals
      then Inr (assemble_M geo_dim normals, assemble_b geo_dim normals flux_contributions)
      else Inl OutOfBounds)"

text \<open>The system that is handed to the solver (lines 162--206).\<close>

definition local_system ::
  "device \<Rightarrow> element_id \<Rightarrow> (element_id \<Rightarrow> error + real) \<Rightarrow> event list \<Rightarrow>
   (error + real list list \<times> real list) \<times> event list" where
  "local_system dev cell facet_access tr =
     (case gather_facets dev cell facet_access tr of
        (Inl e, tr1) \<Rightarrow> (Inl e, tr1)
      | (Inr (normals, flux_contributions), tr1) \<Rightarrow>
          (assemble (geometric_dimension (mesh dev)) normals flux_contributions, tr1))"

text \<open>
  The whole function. The solver \<^verbatim>\<open>viennashe::solvers::solve\<close> is not part of the
  header and is the parameter \<open>solver\<close>; its result is copied entry by entry into the
  zero vector \<open>to_value\<close> of \<open>geo_dim\<close> entries, which is then given to the cell
  setter (lines 208--214). The call of the setter is the event \<open>CellSet\<close> of the trace;
  what the setter does with the vector is the caller's business.
\<close>

definition dual_box_flux_to_cell ::
  "(real list list \<Rightarrow> real list \<Rightarrow> error + real list) \<Rightarrow>
   device \<Rightarrow> element_id \<Rightarrow> (element_id \<Rightarrow> error + real) \<Rightarrow> event list \<Rightarrow>
   (error + unit) \<times> event list" where
  "dual_box_flux_to_cell solver dev cell facet_access tr =
     (case local_system dev cell facet_access tr of
        (Inl e, tr1) \<Rightarrow> (Inl e, tr1)
      | (Inr (M, b), tr1) \<Rightarrow>
          (case solver M b of
             Inl e \<Rightarrow> (Inl e, tr1)
           | Inr result \<Rightarrow>
               (case store_into (replicate (geometric_dimension (mesh dev)) 0) result of
                  Inl e \<Rightarrow> (Inl e, tr1)
                | Inr to_value \<Rightarrow> (Inr (), tr1 @ [CellSet cell to_value]))))"

subsection \<open>Reconstruction for the whole mesh (lines 225--247)\<close>

text \<open>The body of the overload without a cell is commented out; only the throw is left.\<close>

definition dual_box_flux_to_cell_mesh ::
  "device \<Rightarrow> (element_id \<Rightarrow> error + real) \<Rightarrow> event list \<Rightarrow> (error + unit) \<times> event list" where
  "dual_box_flux_to_cell_mesh dev facet_accessor tr = (Inl NotImplemented, tr)"

subsection \<open>The dense solver\<close>

text \<open>
  The determinant of a square matrix given by its rows, by expansion along the first
  row. A matrix is singular when its determinant is zero.
\<close>

fun det :: "real list list \<Rightarrow> real" where
  "det [] = 1"
| "det (row # rows) =
     (\<Sum>j\<leftarrow>[0..<length row].
        (- 1) ^ j * row ! j * det (map (\<lambda>r. take j r @ drop (Suc j) r) rows))"

text \<open>
  Modelled from the spec: \<^verbatim>\<open>viennashe::solvers::solve\<close> (viennashe/solvers) is called by the
  header and is not among the sources. The specification describes it as the service
  \<open>solve(matrix, vector) -> vector\<close>, which may fail with \<open>SingularSystem\<close> or
  \<open>NotConverged\<close>, and requires the solve of a singular matrix to fail explicitly with
  \<open>SingularSystem\<close>. What the solver does with a regular matrix is the parameter
  \<open>backend\<close>.
\<close>

definition solve ::
  "(real list list \<Rightarrow> real list \<Rightarrow> error + real list) \<Rightarrow>
   real list list \<Rightarrow> real list \<Rightarrow> error + real list" where
  "solve backend M b = (if det M = 0 then Inl SingularSystem else backend M b)"

subsection \<open>Example meshes\<close>

text \<open>
  A line from 0 to 2 cut into the cells 10 and 11 by the vertices 0, 1 and 2 (the facets),
  embedded in a space of \<open>geo_dim\<close> dimensions: vertex 1 is the interior facet, listed with
  cell 10 first.
\<close>

definition line_mesh :: "nat \<Rightarrow> viennagrid_mesh" where
  "line_mesh geo_dim =
     \<lparr> cell_dimension = 1,
       geometric_dimension = geo_dim,
       element_centroid =
         (\<lambda>e. (if e = 0 then 0 else if e = 1 then 1 else if e = 2 then 2
                else if e = 10 then 1 / 2 else 3 / 2) # replicate (geo_dim - 1) 0),
       boundary_elements =
         (\<lambda>e d. if d = 0 then (if e = 10 then [0, 1] else if e = 11 then [1, 2] else [])
                else []),
       coboundary_elements =
         (\<lambda>f d. if d = 1 then (if f = 0 then [10] else if f = 1 then [10, 11]
                               else if f = 2 then [11] else [])
                else []) \<rparr>"

definition line_device :: "nat \<Rightarrow> device" where
  "line_device geo_dim = \<lparr> mesh = line_mesh geo_dim \<rparr>"

text \<open>One triangle, cell 20, with the edges 0, 1 and 2.\<close>

definition triangle_mesh :: viennagrid_mesh where
  "triangle_mesh =
     \<lparr> cell_dimension = 2,
       geometric_dimension = 2,
       element_centroid =
         (\<lambda>e. if e = 0 then [1 / 2, 0] else if e = 1 then [1 / 2, 1 / 2]
               else if e = 2 then [0, 1 / 2] else [1 / 3, 1 / 3]),
       boundary_elements = (\<lambda>e d. if d = 1 \<and> e = 20 then [0, 1, 2] else []),
       coboundary_elements = (\<lambda>f d. if d = 2 \<and> f \<in> {0, 1, 2} then [20] else []) \<rparr>"

definition triangle_device :: device where
  "triangle_device = \<lparr> mesh = triangle_mesh \<rparr>"

text \<open>Two facet accessors: one that always answers and one that fails at facet 1.\<close>

definition sample_flux :: "element_id \<Rightarrow> error + real" where
  "sample_flux f = Inr (if f = 0 then 3 else if f = 1 then 5 else 7)"

definition broken_flux :: "element_id \<Rightarrow> error + real" where
  "broken_flux f = (if f = 1 then Inl AccessorFailure else Inr 3)"

text \<open>A backend for systems of one unknown.\<close>

definition scalar_backend :: "real list list \<Rightarrow> real list \<Rightarrow> error + real list" where
  "scalar_backend M b = Inr [b ! 0 / M ! 0 ! 0]"

lemmas example_defs =
  line_mesh_def line_device_def triangle_mesh_def triangle_device_def sample_flux_def
  broken_flux_def
  scalar_backend_def cell_facets_def gather_facets_def local_system_def assemble_def
  assemble_M_def assemble_b_def dense_matrix_def outer_cell_normal_at_facet_def
  detail_outer_cell_normal_at_facet_def store_into_def dual_box_flux_to_cell_def solve_def

section \<open>The facet normal\<close>

lemma ret_update: "(replicate 3 (0::real))[0 := a] = [a, 0, 0]"
  by (simp add: numeral_3_eq_3)

lemma store_into_first:
  "length rs \<le> 2 \<Longrightarrow>
   store_into (replicate 3 0) (x # rs) = Inr (x # rs @ drop (Suc (length rs)) (replicate 3 0))"
  by (simp add: store_into_def)

lemma normal_1d_value:
  assumes "cell_dimension m = 1"
    and "element_centroid m cell = xc # rc" and "length rc \<le> 2"
    and "element_centroid m facet = xf # rf" and "length rf \<le> 2"
  shows "outer_cell_normal_at_facet m cell facet = Inr [if xc < xf then 1 else - 1, 0, 0]"
  using assms
  by (simp add: outer_cell_normal_at_facet_def detail_outer_cell_normal_at_facet_def
      store_into_first ret_update)

lemma normal_has_three_entries:
  "outer_cell_normal_at_facet m cell facet = Inr n \<Longrightarrow> length n = 3"
  by (auto simp: outer_cell_normal_at_facet_def detail_outer_cell_normal_at_facet_def Let_def
      split: if_splits sum.splits)

text \<open>
  C3: on a mesh of cell dimension 1 whose centroids have between one and three
  coordinates, the normal of a facet with respect to a cell is the vector \<open>[s, 0, 0]\<close>
  with \<open>s = 1\<close> when the first coordinate of the cell's centroid is strictly less than
  that of the facet's centroid and \<open>s = - 1\<close> otherwise; its Euclidean length is 1.
\<close>

theorem normal_1d_unit_axis:
  assumes "cell_dimension m = 1"
    and "element_centroid m cell = xc # rc" and "length rc \<le> 2"
    and "element_centroid m facet = xf # rf" and "length rf \<le> 2"
  shows "\<exists>n. outer_cell_normal_at_facet m cell facet = Inr n \<and>
             n = [if xc < xf then 1 else - 1, 0, 0] \<and> (\<Sum>x\<leftarrow>n. x * x) = 1"
  using normal_1d_value[OF assms] by simp

theorem normal_1d_unit_axis_witness:
  "cell_dimension (line_mesh 1) = 1 \<and>
   element_centroid (line_mesh 1) 10 = [1 / 2] \<and> element_centroid (line_mesh 1) 1 = [1] \<and>
   (\<exists>n. outer_cell_normal_at_facet (line_mesh 1) 10 1 = Inr n \<and>
        n = [if (1 / 2 :: real) < 1 then 1 else - 1, 0, 0] \<and> (\<Sum>x\<leftarrow>n. x * x) = 1)"
proof -
  have d: "cell_dimension (line_mesh 1) = 1"
    by (simp add: line_mesh_def)
  have c: "element_centroid (line_mesh 1) 10 = [1 / 2]"
    by (simp add: line_mesh_def)
  have f: "element_centroid (line_mesh 1) 1 = [1]"
    by (simp add: line_mesh_def)
  have l: "length ([] :: real list) \<le> 2"
    by simp
  from normal_1d_unit_axis[OF d c l f l] d c f show ?thesis
    by simp
qed

text \<open>
  C6: on a mesh whose cell dimension is not 1 the normal is not computed: the function
  fails with \<open>UnsupportedDimension\<close>, so no vector, zero or not, is returned.
\<close>

theorem normal_unsupported_dimension:
  assumes "cell_dimension m \<noteq> 1"
  shows "outer_cell_normal_at_facet m cell facet = Inl UnsupportedDimension"
  using assms by (simp add: outer_cell_normal_at_facet_def)

theorem normal_unsupported_dimension_witness:
  "cell_dimension triangle_mesh \<noteq> 1 \<and>
   outer_cell_normal_at_facet triangle_mesh 20 0 = Inl UnsupportedDimension"
proof -
  have d: "cell_dimension triangle_mesh \<noteq> 1"
    by (simp add: triangle_mesh_def)
  from normal_unsupported_dimension[OF d] d show ?thesis
    by simp
qed

text \<open>
  C8, as stated: the returned vector has as many entries as the mesh has geometric
  dimensions. On the line embedded in one dimension the normal of facet 1, a facet of
  cell 10, has three entries.
\<close>

theorem normal_length_counterexample:
  "1 \<in> set (cell_facets (line_mesh 1) 10) \<and>
   outer_cell_normal_at_facet (line_mesh 1) 10 1 = Inr [1, 0, 0] \<and>
   length [1 :: real, 0, 0] \<noteq> geometric_dimension (line_mesh 1)"
  by (simp add: example_defs numeral_3_eq_3)

text \<open>
  C8, amended: whenever the function returns a vector, the vector has three entries,
  whatever the geometric dimension of the mesh.
\<close>

theorem normal_length_three:
  assumes "outer_cell_normal_at_facet m cell facet = Inr n"
  shows "length n = 3"
  using assms by (rule normal_has_three_entries)

theorem normal_length_three_witness:
  "outer_cell_normal_at_facet (line_mesh 2) 11 1 = Inr [- 1, 0, 0] \<and>
   length [- 1 :: real, 0, 0] = 3"
proof -
  have n: "outer_cell_normal_at_facet (line_mesh 2) 11 1 = Inr [- 1, 0, 0]"
    by (simp add: example_defs numeral_3_eq_3)
  from normal_length_three[OF n] n show ?thesis
    by simp
qed

text \<open>
  C9: on a mesh of cell dimension 1, when the centroid of a facet lies strictly between
  the centroids of two cells (in the first coordinate), the normals of the facet with
  respect to the two cells are the unit vectors \<open>[s, 0, 0]\<close> and \<open>[- s, 0, 0]\<close>, where
  \<open>s\<close> is 1 when the first cell lies before the facet and \<open>- 1\<close> when it lies behind
  it; being opposite, they add up, entry by entry, to the zero vector.
\<close>

theorem normals_antiparallel:
  assumes "cell_dimension m = 1"
    and "element_centroid m cell1 = x1 # r1" and "length r1 \<le> 2"
    and "element_centroid m cell2 = x2 # r2" and "length r2 \<le> 2"
    and "element_centroid m facet = xf # rf" and "length rf \<le> 2"
    and "(x1 < xf \<and> xf < x2) \<or> (x2 < xf \<and> xf < x1)"
  shows "\<exists>s n1 n2. s = (if x1 < xf then 1 else - 1) \<and> (s = 1 \<or> s = - 1) \<and>
                    outer_cell_normal_at_facet m cell1 facet = Inr n1 \<and> n1 = [s, 0, 0] \<and>
                    outer_cell_normal_at_facet m cell2 facet = Inr n2 \<and> n2 = [- s, 0, 0] \<and>
                    map2 (+) n1 n2 = [0, 0, 0]"
proof -
  have n1: "outer_cell_normal_at_facet m cell1 facet = Inr [if x1 < xf then 1 else - 1, 0, 0]"
    using assms(1,2,3,6,7) by (rule normal_1d_value)
  have n2: "outer_cell_normal_at_facet m cell2 facet = Inr [if x2 < xf then 1 else - 1, 0, 0]"
    using assms(1,4,5,6,7) by (rule normal_1d_value)
  from assms(8) show ?thesis
  proof
    assume "x1 < xf \<and> xf < x2"
    then have "x1 < xf" and "\<not> x2 < xf"
      by simp_all
    with n1 n2 show ?thesis
      by simp
  next
    assume "x2 < xf \<and> xf < x1"
    then have "\<not> x1 < xf" and "x2 < xf"
      by simp_all
    with n1 n2 show ?thesis
      by simp
  qed
qed

theorem normals_antiparallel_witness:
  "cell_dimension (line_mesh 1) = 1 \<and>
   element_centroid (line_mesh 1) 10 = [1 / 2] \<and> element_centroid (line_mesh 1) 11 = [3 / 2] \<and>
   element_centroid (line_mesh 1) 1 = [1] \<and>
   (((1 / 2 :: real) < 1 \<and> (1 :: real) < 3 / 2) \<or> ((3 / 2 :: real) < 1 \<and> (1 :: real) < 1 / 2)) \<and>
   outer_cell_normal_at_facet (line_mesh 1) 10 1 = Inr [1, 0, 0] \<and>
   outer_cell_normal_at_facet (line_mesh 1) 11 1 = Inr [- 1, 0, 0] \<and>
   map2 (+) [1, 0, 0] [- 1, 0, 0 :: real] = [0, 0, 0]"
proof -
  have d: "cell_dimension (line_mesh 1) = 1"
    by (simp add: line_mesh_def)
  have c1: "element_centroid (line_mesh 1) 10 = [1 / 2]"
    by (simp add: line_mesh_def)
  have c2: "element_centroid (line_mesh 1) 11 = [3 / 2]"
    by (simp add: line_mesh_def)
  have f: "element_centroid (line_mesh 1) 1 = [1]"
    by (simp add: line_mesh_def)
  have l: "length ([] :: real list) \<le> 2"
    by simp
  have s: "((1 / 2 :: real) < 1 \<and> (1 :: real) < 3 / 2) \<or> ((3 / 2 :: real) < 1 \<and> (1 :: real) < 1 / 2)"
    by simp
  from normals_antiparallel[OF d c1 l c2 l f l s] have
    "outer_cell_normal_at_facet (line_mesh 1) 10 1 = Inr [1, 0, 0] \<and>
     outer_cell_normal_at_facet (line_mesh 1) 11 1 = Inr [- 1, 0, 0] \<and>
     map2 (+) [1, 0, 0] [- 1, 0, 0 :: real] = [0, 0, 0]"
    by simp
  with d c1 c2 f s show ?thesis
    by blast
qed

text \<open>
  C10: on a mesh of cell dimension 1, when the centroids of the cell and of the facet
  have the same first coordinate, the function returns the vector \<open>[- 1, 0, 0]\<close>: the
  strict comparison fails and the second branch is taken.
\<close>

theorem normal_tie_is_minus_one:
  assumes "cell_dimension m = 1"
    and "element_centroid m cell = x # rc" and "length rc \<le> 2"
    and "element_centroid m facet = x # rf" and "length rf \<le> 2"
  shows "outer_cell_normal_at_facet m cell facet = Inr [- 1, 0, 0]"
  using normal_1d_value[OF assms] by simp

theorem normal_tie_is_minus_one_witness:
  "cell_dimension (line_mesh 3) = 1 \<and>
   element_centroid (line_mesh 3) 1 = [1, 0, 0] \<and>
   outer_cell_normal_at_facet (line_mesh 3) 1 1 = Inr [- 1, 0, 0]"
proof -
  have d: "cell_dimension (line_mesh 3) = 1"
    by (simp add: line_mesh_def)
  have c: "element_centroid (line_mesh 3) 1 = [1, 0, 0]"
    by (simp add: line_mesh_def numeral_2_eq_2)
  have l: "length [0 :: real, 0] \<le> 2"
    by simp
  from normal_tie_is_minus_one[OF d c l c l] d c show ?thesis
    by simp
qed

section \<open>The whole-mesh overload\<close>

text \<open>
  C7: the overload for the whole mesh fails for every device, accessor and trace, and
  the trace it leaves is the one it was given: neither the facet accessor nor the cell
  setter has been called.
\<close>

theorem whole_mesh_not_implemented:
  "fst (dual_box_flux_to_cell_mesh dev facet_accessor tr) = Inl NotImplemented \<and>
   snd (dual_box_flux_to_cell_mesh dev facet_accessor tr) = tr"
  by (simp add: dual_box_flux_to_cell_mesh_def)

section \<open>The loop over the facets\<close>

text \<open>
  When the accessor, the normal and the coboundary of every facet are available, the loop
  fills the two vectors from \<open>facet_ctr\<close> on, facet by facet, and calls the accessor once
  for each facet.
\<close>

lemma facet_loop_success:
  assumes "\<forall>f\<in>set fs. fa f = Inr (flux f)"
    and "\<forall>f\<in>set fs. outer_cell_normal_at_facet m cell f = Inr (nrm f)"
    and "\<forall>f\<in>set fs. \<exists>c cs. coboundary_elements m f (int (cell_dimension m)) = c # cs \<and>
            ofl f = (if c = cell then flux f else - flux f)"
    and "ctr + length fs = length normals"
    and "length fluxes = length normals"
  shows "facet_loop m cell fa fs ctr normals fluxes tr =
           (Inr (take ctr normals @ map nrm fs, take ctr fluxes @ map ofl fs),
            tr @ map FacetAccess fs)"
  using assms
proof (induction fs arbitrary: ctr normals fluxes tr)
  case Nil
  then show ?case by simp
next
  case (Cons f fs)
  from Cons.prems(3) obtain c cs where
    cob: "coboundary_elements m f (int (cell_dimension m)) = c # cs"
    and ofl: "ofl f = (if c = cell then flux f else - flux f)"
    by auto
  have lt: "ctr < length normals" "ctr < length fluxes"
    using Cons.prems(4,5) by simp_all
  let ?n1 = "normals[ctr := nrm f]"
  let ?f2 = "fluxes[ctr := ofl f]"
  have step: "facet_loop m cell fa (f # fs) ctr normals fluxes tr =
                facet_loop m cell fa fs (Suc ctr) ?n1 ?f2 (tr @ [FacetAccess f])"
    using Cons.prems(1,2) cob ofl lt by (simp add: Let_def)
  have ih: "facet_loop m cell fa fs (Suc ctr) ?n1 ?f2 (tr @ [FacetAccess f]) =
              (Inr (take (Suc ctr) ?n1 @ map nrm fs, take (Suc ctr) ?f2 @ map ofl fs),
               (tr @ [FacetAccess f]) @ map FacetAccess fs)"
    using Cons.prems by (intro Cons.IH) simp_all
  have t1: "take (Suc ctr) ?n1 = take ctr normals @ [nrm f]"
    using lt by (simp add: take_Suc_conv_app_nth)
  have t2: "take (Suc ctr) ?f2 = take ctr fluxes @ [ofl f]"
    using lt by (simp add: take_Suc_conv_app_nth)
  show ?case
    unfolding step ih t1 t2 by simp
qed

text \<open>A loop that ends normally has found all three for every facet.\<close>

lemma facet_loop_Inr_facets:
  assumes "facet_loop m cell fa fs ctr normals fluxes tr = (Inr r, tr')"
    and "f \<in> set fs"
  shows "(\<exists>v. fa f = Inr v) \<and> (\<exists>n. outer_cell_normal_at_facet m cell f = Inr n) \<and>
         coboundary_elements m f (int (cell_dimension m)) \<noteq> []"
  using assms
proof (induction fs arbitrary: ctr normals fluxes tr)
  case Nil
  then show ?case by simp
next
  case (Cons g fs)
  from Cons.prems(1) obtain v n c cs where
    g: "fa g = Inr v" "outer_cell_normal_at_facet m cell g = Inr n"
       "coboundary_elements m g (int (cell_dimension m)) = c # cs"
    by (auto split: sum.splits list.splits)
  show ?case
  proof (cases "f = g")
    case True
    with g show ?thesis by simp
  next
    case False
    with Cons.prems(2) have "f \<in> set fs" by simp
    moreover from Cons.prems(1) g obtain n' f' where
      "facet_loop m cell fa fs (Suc ctr) n' f' (tr @ [FacetAccess g]) = (Inr r, tr')"
      by (simp add: Let_def)
    ultimately show ?thesis by (rule Cons.IH[rotated])
  qed
qed

text \<open>
  A loop that fails stops at the first facet at which something fails: the accessor has
  answered for all facets before it, and no facet behind it has been touched.
\<close>

lemma facet_loop_Inl_trace:
  assumes "facet_loop m cell fa fs ctr normals fluxes tr = (Inl e, tr')"
  shows "\<exists>k<length fs. tr' = tr @ map FacetAccess (take (Suc k) fs) \<and>
                        (\<forall>j<k. \<exists>v. fa (fs ! j) = Inr v)"
  using assms
proof (induction fs arbitrary: ctr normals fluxes tr)
  case Nil
  then show ?case by simp
next
  case (Cons g fs)
  have here: ?case if "tr' = tr @ [FacetAccess g]"
  proof -
    from that have "tr' = tr @ map FacetAccess (take (Suc 0) (g # fs))" by simp
    then show ?thesis by (intro exI[of _ 0]) simp
  qed
  show ?case
  proof (cases "fa g")
    case (Inl e')
    with Cons.prems show ?thesis by (intro here) simp
  next
    case (Inr v)
    show ?thesis
    proof (cases "outer_cell_normal_at_facet m cell g")
      case (Inl e')
      with Cons.prems Inr show ?thesis by (intro here) simp
    next
      case n: (Inr n)
      show ?thesis
      proof (cases "coboundary_elements m g (int (cell_dimension m))")
        case Nil
        with Cons.prems Inr n show ?thesis by (intro here) simp
      next
        case (Cons c cs)
        with Cons.prems Inr n obtain n' f' where
          "facet_loop m cell fa fs (Suc ctr) n' f' (tr @ [FacetAccess g]) = (Inl e, tr')"
          by (simp add: Let_def)
        from Cons.IH[OF this] obtain k where
          k: "k < length fs" "tr' = (tr @ [FacetAccess g]) @ map FacetAccess (take (Suc k) fs)"
          "\<forall>j<k. \<exists>v. fa (fs ! j) = Inr v"
          by blast
        have "\<forall>j<Suc k. \<exists>v. fa ((g # fs) ! j) = Inr v"
          using k(3) Inr by (simp add: nth_Cons split: nat.splits)
        moreover from k have "Suc k < length (g # fs)"
          "tr' = tr @ map FacetAccess (take (Suc (Suc k)) (g # fs))"
          by simp_all
        ultimately show ?thesis by blast
      qed
    qed
  qed
qed

text \<open>The same for the loop as \<open>dual_box_flux_to_cell\<close> starts it.\<close>

lemma gather_facets_Inr:
  assumes "gather_facets dev cell fa tr = (Inr (normals, fluxes), tr')"
  shows "\<exists>flux nrm ofl.
           (\<forall>f\<in>set (cell_facets (mesh dev) cell).
               fa f = Inr (flux f) \<and>
               outer_cell_normal_at_facet (mesh dev) cell f = Inr (nrm f) \<and>
               (\<exists>c cs. coboundary_elements (mesh dev) f (int (cell_dimension (mesh dev))) = c # cs \<and>
                        ofl f = (if c = cell then flux f else - flux f))) \<and>
           normals = map nrm (cell_facets (mesh dev) cell) \<and>
           fluxes = map ofl (cell_facets (mesh dev) cell) \<and>
           tr' = tr @ map FacetAccess (cell_facets (mesh dev) cell)"
proof -
  let ?m = "mesh dev"
  let ?fs = "cell_facets ?m cell"
  let ?n = "length ?fs"
  let ?flux = "\<lambda>f. projr (fa f)"
  let ?nrm = "\<lambda>f. projr (outer_cell_normal_at_facet ?m cell f)"
  let ?ofl = "\<lambda>f. if hd (coboundary_elements ?m f (int (cell_dimension ?m))) = cell
                   then ?flux f else - ?flux f"
  have loop: "facet_loop ?m cell fa ?fs 0 (replicate ?n []) (replicate ?n 0) tr =
                (Inr (normals, fluxes), tr')"
    using assms by (simp add: gather_facets_def Let_def)
  have each: "fa f = Inr (?flux f) \<and> outer_cell_normal_at_facet ?m cell f = Inr (?nrm f) \<and>
              (\<exists>c cs. coboundary_elements ?m f (int (cell_dimension ?m)) = c # cs \<and>
                       ?ofl f = (if c = cell then ?flux f else - ?flux f))"
    if "f \<in> set ?fs" for f
  proof -
    from facet_loop_Inr_facets[OF loop that] obtain v n where
      "fa f = Inr v" "outer_cell_normal_at_facet ?m cell f = Inr n"
      "coboundary_elements ?m f (int (cell_dimension ?m)) \<noteq> []"
      by blast
    then show ?thesis by (cases "coboundary_elements ?m f (int (cell_dimension ?m))") simp_all
  qed
  have "facet_loop ?m cell fa ?fs 0 (replicate ?n []) (replicate ?n 0) tr =
          (Inr (take 0 (replicate ?n []) @ map ?nrm ?fs, take 0 (replicate ?n 0) @ map ?ofl ?fs),
           tr @ map FacetAccess ?fs)"
    by (rule facet_loop_success[where flux = ?flux]) (use each in simp_all)
  with loop have "normals = map ?nrm ?fs" "fluxes = map ?ofl ?fs" "tr' = tr @ map FacetAccess ?fs"
    by simp_all
  moreover have "\<forall>f\<in>set ?fs. fa f = Inr (?flux f) \<and>
      outer_cell_normal_at_facet ?m cell f = Inr (?nrm f) \<and>
      (\<exists>c cs. coboundary_elements ?m f (int (cell_dimension ?m)) = c # cs \<and>
               ?ofl f = (if c = cell then ?flux f else - ?flux f))"
    using each by blast
  ultimately show ?thesis
    by (intro exI[of _ ?flux] exI[of _ ?nrm] exI[of _ ?ofl] conjI)
qed

lemma gather_facets_Inl:
  assumes "gather_facets dev cell fa tr = (Inl e, tr')"
  shows "\<exists>k<length (cell_facets (mesh dev) cell).
           tr' = tr @ map FacetAccess (take (Suc k) (cell_facets (mesh dev) cell)) \<and>
           (\<forall>j<k. \<exists>v. fa (cell_facets (mesh dev) cell ! j) = Inr v)"
  using assms facet_loop_Inl_trace by (simp add: gather_facets_def Let_def)

text \<open>
  C1: when the loop over the facets of a cell has ended normally, the entry of
  \<open>flux_contributions\<close> that assembly reads for the \<open>k\<close>-th facet is the value the
  accessor returned for that facet if the first cell of the facet's coboundary is the
  cell, and the negated value otherwise.
\<close>

theorem flux_orientation:
  assumes "gather_facets dev cell fa tr = (Inr (normals, flux_contributions), tr')"
    and "k < length (cell_facets (mesh dev) cell)"
  shows "\<exists>v c cs. fa (cell_facets (mesh dev) cell ! k) = Inr v \<and>
           coboundary_elements (mesh dev) (cell_facets (mesh dev) cell ! k)
             (int (cell_dimension (mesh dev))) = c # cs \<and>
           flux_contributions ! k = (if c = cell then v else - v)"
proof -
  from gather_facets_Inr[OF assms(1)] obtain flux nrm ofl where
    each: "\<forall>f\<in>set (cell_facets (mesh dev) cell).
               fa f = Inr (flux f) \<and>
               outer_cell_normal_at_facet (mesh dev) cell f = Inr (nrm f) \<and>
               (\<exists>c cs. coboundary_elements (mesh dev) f (int (cell_dimension (mesh dev))) = c # cs \<and>
                        ofl f = (if c = cell then flux f else - flux f))"
    and fl: "flux_contributions = map ofl (cell_facets (mesh dev) cell)"
    by blast
  from assms(2) have "cell_facets (mesh dev) cell ! k \<in> set (cell_facets (mesh dev) cell)"
    by simp
  with each fl assms(2) show ?thesis by fastforce
qed

theorem flux_orientation_witness:
  "gather_facets (line_device 1) 11 sample_flux [] =
     (Inr ([[- 1, 0, 0], [1, 0, 0]], [- 5, 7]), [FacetAccess 1, FacetAccess 2]) \<and>
   0 < length (cell_facets (mesh (line_device 1)) 11) \<and>
   (\<exists>v c cs. sample_flux (cell_facets (mesh (line_device 1)) 11 ! 0) = Inr v \<and>
      coboundary_elements (mesh (line_device 1)) (cell_facets (mesh (line_device 1)) 11 ! 0)
        (int (cell_dimension (mesh (line_device 1)))) = c # cs \<and>
      [- 5, 7] ! 0 = (if c = 11 then v else - v))"
proof -
  have g: "gather_facets (line_device 1) 11 sample_flux [] =
     (Inr ([[- 1, 0, 0], [1, 0, 0]], [- 5, 7]), [FacetAccess 1, FacetAccess 2])"
    by (simp add: example_defs numeral_3_eq_3)
  have k: "0 < length (cell_facets (mesh (line_device 1)) 11)"
    by (simp add: example_defs)
  from flux_orientation[OF g k] g k show ?thesis
    by simp
qed

section \<open>The assembled system\<close>

lemma foldl_add_sum_list:
  "foldl (\<lambda>acc k. acc + g k) (a::real) ks = a + sum_list (map g ks)"
  by (induction ks arbitrary: a) simp_all

lemma assemble_M_map:
  "assemble_M geo_dim (map nrm fs) =
     map (\<lambda>i. map (\<lambda>j. \<Sum>f\<leftarrow>fs. nrm f ! i * nrm f ! j) [0..<geo_dim]) [0..<geo_dim]"
proof -
  have "map (\<lambda>k. map nrm fs ! k ! i * map nrm fs ! k ! j) [0..<length fs] =
        map (\<lambda>f. nrm f ! i * nrm f ! j) fs" for i j
    by (rule nth_equalityI) simp_all
  then show ?thesis
    by (simp add: assemble_M_def dense_matrix_def foldl_add_sum_list)
qed

lemma assemble_b_map:
  "assemble_b geo_dim (map nrm fs) (map ofl fs) =
     map (\<lambda>i. \<Sum>f\<leftarrow>fs. nrm f ! i * ofl f) [0..<geo_dim]"
proof -
  have "map (\<lambda>k. map nrm fs ! k ! i * map ofl fs ! k) [0..<length fs] =
        map (\<lambda>f. nrm f ! i * ofl f) fs" for i
    by (rule nth_equalityI) simp_all
  then show ?thesis
    by (simp add: assemble_b_def foldl_add_sum_list)
qed

text \<open>
  What is known when a system has been assembled: every facet has been read, every
  normal is long enough, and the two sums run over the facets in their order.
\<close>

lemma local_system_Inr:
  assumes "local_system dev cell fa tr = (Inr (M, b), tr')"
  shows "\<exists>flux nrm ofl.
           (\<forall>f\<in>set (cell_facets (mesh dev) cell).
               fa f = Inr (flux f) \<and>
               outer_cell_normal_at_facet (mesh dev) cell f = Inr (nrm f) \<and>
               (\<exists>c cs. coboundary_elements (mesh dev) f (int (cell_dimension (mesh dev))) = c # cs \<and>
                        ofl f = (if c = cell then flux f else - flux f))) \<and>
           (\<forall>f\<in>set (cell_facets (mesh dev) cell). geometric_dimension (mesh dev) \<le> length (nrm f)) \<and>
           M = map (\<lambda>i. map (\<lambda>j. \<Sum>f\<leftarrow>cell_facets (mesh dev) cell. nrm f ! i * nrm f ! j)
                          [0..<geometric_dimension (mesh dev)])
                  [0..<geometric_dimension (mesh dev)] \<and>
           b = map (\<lambda>i. \<Sum>f\<leftarrow>cell_facets (mesh dev) cell. nrm f ! i * ofl f)
                  [0..<geometric_dimension (mesh dev)] \<and>
           tr' = tr @ map FacetAccess (cell_facets (mesh dev) cell)"
proof -
  let ?fs = "cell_facets (mesh dev) cell"
  let ?gd = "geometric_dimension (mesh dev)"
  from assms obtain normals fluxes where
    g: "gather_facets dev cell fa tr = (Inr (normals, fluxes), tr')"
    and a: "assemble ?gd normals fluxes = Inr (M, b)"
    by (auto simp: local_system_def split: prod.splits sum.splits)
  from gather_facets_Inr[OF g] obtain flux nrm ofl where
    each: "\<forall>f\<in>set ?fs.
               fa f = Inr (flux f) \<and>
               outer_cell_normal_at_facet (mesh dev) cell f = Inr (nrm f) \<and>
               (\<exists>c cs. coboundary_elements (mesh dev) f (int (cell_dimension (mesh dev))) = c # cs \<and>
                        ofl f = (if c = cell then flux f else - flux f))"
    and n: "normals = map nrm ?fs"
    and fl: "fluxes = map ofl ?fs"
    and t: "tr' = tr @ map FacetAccess ?fs"
    by blast
  from a n fl have long: "\<forall>f\<in>set ?fs. ?gd \<le> length (nrm f)"
    and M: "M = assemble_M ?gd (map nrm ?fs)"
    and b: "b = assemble_b ?gd (map nrm ?fs) (map ofl ?fs)"
    by (auto simp: assemble_def list_all_iff split: if_splits)
  from each long M b t show ?thesis
    unfolding assemble_M_map assemble_b_map
    by (intro exI[of _ flux] exI[of _ nrm] exI[of _ ofl] conjI)
qed

text \<open>
  C2: when a system \<open>(M, b)\<close> is handed to the solver, the accessor has returned a value
  \<open>flux f\<close> and the normal computation a vector \<open>nrm f\<close> for every facet \<open>f\<close> of the
  cell, and for all \<open>i\<close>, \<open>j\<close> below the geometric dimension \<open>M(i, j)\<close> is the sum of
  \<open>nrm f ! i * nrm f ! j\<close> over the facets and \<open>b[i]\<close> the sum of \<open>nrm f ! i\<close> times the
  flux of \<open>f\<close>, negated when the first cell of the coboundary of \<open>f\<close> is not the cell.
\<close>

theorem local_system_sums:
  assumes "local_system dev cell fa tr = (Inr (M, b), tr')"
  shows "\<exists>flux nrm ofl.
           (\<forall>f\<in>set (cell_facets (mesh dev) cell).
               fa f = Inr (flux f) \<and>
               outer_cell_normal_at_facet (mesh dev) cell f = Inr (nrm f) \<and>
               (\<exists>c cs. coboundary_elements (mesh dev) f (int (cell_dimension (mesh dev))) = c # cs \<and>
                        ofl f = (if c = cell then flux f else - flux f))) \<and>
           (\<forall>i<geometric_dimension (mesh dev). \<forall>j<geometric_dimension (mesh dev).
               M ! i ! j = (\<Sum>f\<leftarrow>cell_facets (mesh dev) cell. nrm f ! i * nrm f ! j)) \<and>
           (\<forall>i<geometric_dimension (mesh dev).
               b ! i = (\<Sum>f\<leftarrow>cell_facets (mesh dev) cell. nrm f ! i * ofl f))"
proof -
  from local_system_Inr[OF assms] obtain flux nrm ofl where
    each: "\<forall>f\<in>set (cell_facets (mesh dev) cell).
               fa f = Inr (flux f) \<and>
               outer_cell_normal_at_facet (mesh dev) cell f = Inr (nrm f) \<and>
               (\<exists>c cs. coboundary_elements (mesh dev) f (int (cell_dimension (mesh dev))) = c # cs \<and>
                        ofl f = (if c = cell then flux f else - flux f))"
    and M: "M = map (\<lambda>i. map (\<lambda>j. \<Sum>f\<leftarrow>cell_facets (mesh dev) cell. nrm f ! i * nrm f ! j)
                          [0..<geometric_dimension (mesh dev)])
                  [0..<geometric_dimension (mesh dev)]"
    and b: "b = map (\<lambda>i. \<Sum>f\<leftarrow>cell_facets (mesh dev) cell. nrm f ! i * ofl f)
                  [0..<geometric_dimension (mesh dev)]"
    by blast
  have "\<forall>i<geometric_dimension (mesh dev). \<forall>j<geometric_dimension (mesh dev).
               M ! i ! j = (\<Sum>f\<leftarrow>cell_facets (mesh dev) cell. nrm f ! i * nrm f ! j)"
    unfolding M by simp
  moreover have "\<forall>i<geometric_dimension (mesh dev).
               b ! i = (\<Sum>f\<leftarrow>cell_facets (mesh dev) cell. nrm f ! i * ofl f)"
    unfolding b by simp
  ultimately show ?thesis
    using each by (intro exI[of _ flux] exI[of _ nrm] exI[of _ ofl] conjI)
qed

theorem local_system_sums_witness:
  "local_system (line_device 2) 11 sample_flux [] =
     (Inr ([[2, 0], [0, 0]], [12, 0]), [FacetAccess 1, FacetAccess 2]) \<and>
   (\<exists>flux nrm ofl.
      (\<forall>f\<in>set (cell_facets (mesh (line_device 2)) 11).
          sample_flux f = Inr (flux f) \<and>
          outer_cell_normal_at_facet (mesh (line_device 2)) 11 f = Inr (nrm f) \<and>
          (\<exists>c cs. coboundary_elements (mesh (line_device 2)) f
                     (int (cell_dimension (mesh (line_device 2)))) = c # cs \<and>
                   ofl f = (if c = 11 then flux f else - flux f))) \<and>
      (\<forall>i<geometric_dimension (mesh (line_device 2)).
         \<forall>j<geometric_dimension (mesh (line_device 2)).
          [[2, 0], [0, 0]] ! i ! j =
            (\<Sum>f\<leftarrow>cell_facets (mesh (line_device 2)) 11. nrm f ! i * nrm f ! j)) \<and>
      (\<forall>i<geometric_dimension (mesh (line_device 2)).
          [12, 0] ! i = (\<Sum>f\<leftarrow>cell_facets (mesh (line_device 2)) 11. nrm f ! i * ofl f)))"
proof -
  have l: "local_system (line_device 2) 11 sample_flux [] =
     (Inr ([[2, 0], [0, 0]], [12, 0]), [FacetAccess 1, FacetAccess 2])"
    by (simp add: example_defs numeral_3_eq_3 numeral_2_eq_2 upt_rec)
  from local_system_sums[OF l] l show ?thesis
    by (intro conjI)
qed

section \<open>Failure and the cell setter\<close>

text \<open>
  When no system is assembled, only facets have been accessed, and none behind the first
  facet whose accessor failed.
\<close>

lemma local_system_Inl:
  assumes "local_system dev cell fa tr = (Inl e, tr')"
  shows "\<exists>k\<le>length (cell_facets (mesh dev) cell).
           tr' = tr @ map FacetAccess (take k (cell_facets (mesh dev) cell)) \<and>
           (\<forall>j<length (cell_facets (mesh dev) cell).
               isl (fa (cell_facets (mesh dev) cell ! j)) \<longrightarrow> k \<le> Suc j)"
proof -
  let ?fs = "cell_facets (mesh dev) cell"
  from assms consider
    (loop) "gather_facets dev cell fa tr = (Inl e, tr')"
    | (asm) normals fluxes where "gather_facets dev cell fa tr = (Inr (normals, fluxes), tr')"
    by (auto simp: local_system_def split: prod.splits sum.splits)
  then show ?thesis
  proof cases
    case loop
    from gather_facets_Inl[OF loop] obtain k where
      k: "k < length ?fs" "tr' = tr @ map FacetAccess (take (Suc k) ?fs)"
      "\<forall>j<k. \<exists>v. fa (?fs ! j) = Inr v"
      by blast
    have "\<forall>j<length ?fs. isl (fa (?fs ! j)) \<longrightarrow> Suc k \<le> Suc j"
    proof (intro allI impI)
      fix j
      assume "j < length ?fs" and bad: "isl (fa (?fs ! j))"
      have "\<not> j < k"
      proof
        assume "j < k"
        with k(3) obtain v where "fa (?fs ! j) = Inr v" by blast
        with bad show False by simp
      qed
      then show "Suc k \<le> Suc j" by simp
    qed
    with k(1,2) show ?thesis
      by (intro exI[of _ "Suc k"]) simp
  next
    case asm
    from gather_facets_Inr[OF asm] obtain flux where
      "\<forall>f\<in>set ?fs. fa f = Inr (flux f)" and "tr' = tr @ map FacetAccess ?fs"
      by blast
    then show ?thesis
      by (intro exI[of _ "length ?fs"]) simp
  qed
qed

text \<open>
  C5: whatever the solver, a call of \<open>dual_box_flux_to_cell\<close> that ends with result \<open>r\<close>
  and trace \<open>tr'\<close> has failed when the accessor fails for a facet of the cell (and then
  no facet behind that one has been accessed), when the normal of a facet cannot be
  computed, and when the solver fails on the assembled system. A failed call has added
  only facet accesses to the trace, so the cell setter has not been called. A call that
  succeeds has added the accesses of all facets, in their order, followed by exactly one
  call of the setter for the cell; and the call succeeds when the system is assembled and
  the solver returns no more values than the geometric dimension.
\<close>

theorem reconstruction_atomic:
  assumes "dual_box_flux_to_cell solver dev cell fa tr = (r, tr')"
  shows "(\<forall>k<length (cell_facets (mesh dev) cell).
            isl (fa (cell_facets (mesh dev) cell ! k)) \<longrightarrow>
            isl r \<and> length tr' \<le> length tr + Suc k) \<and>
         ((\<exists>f\<in>set (cell_facets (mesh dev) cell).
              isl (outer_cell_normal_at_facet (mesh dev) cell f)) \<longrightarrow> isl r) \<and>
         (\<forall>M b tr1. local_system dev cell fa tr = (Inr (M, b), tr1) \<and> isl (solver M b) \<longrightarrow> isl r) \<and>
         (isl r \<longrightarrow>
            (\<exists>k\<le>length (cell_facets (mesh dev) cell).
                tr' = tr @ map FacetAccess (take k (cell_facets (mesh dev) cell)))) \<and>
         (r = Inr () \<longrightarrow>
            (\<exists>v. tr' = tr @ map FacetAccess (cell_facets (mesh dev) cell) @ [CellSet cell v])) \<and>
         (\<forall>M b tr1 res. local_system dev cell fa tr = (Inr (M, b), tr1) \<and> solver M b = Inr res \<and>
              length res \<le> geometric_dimension (mesh dev) \<longrightarrow> r = Inr ())"
proof (cases "fst (local_system dev cell fa tr)")
  case (Inl e)
  then obtain tr1 where ls: "local_system dev cell fa tr = (Inl e, tr1)"
    by (cases "local_system dev cell fa tr") simp
  with assms have r: "r = Inl e" and t: "tr' = tr1"
    by (simp_all add: dual_box_flux_to_cell_def)
  from local_system_Inl[OF ls] t obtain k where
    k: "k \<le> length (cell_facets (mesh dev) cell)"
    "tr' = tr @ map FacetAccess (take k (cell_facets (mesh dev) cell))"
    "\<forall>j<length (cell_facets (mesh dev) cell).
        isl (fa (cell_facets (mesh dev) cell ! j)) \<longrightarrow> k \<le> Suc j"
    by blast
  from k(1,2) have len: "length tr' = length tr + k"
    by simp
  have c1: "\<forall>j<length (cell_facets (mesh dev) cell).
            isl (fa (cell_facets (mesh dev) cell ! j)) \<longrightarrow>
            isl r \<and> length tr' \<le> length tr + Suc j"
    using k(3) r len by auto
  have c4: "isl r \<longrightarrow>
            (\<exists>k\<le>length (cell_facets (mesh dev) cell).
                tr' = tr @ map FacetAccess (take k (cell_facets (mesh dev) cell)))"
    using k(1,2) by blast
  from c1 c4 r ls show ?thesis
    by simp
next
  case (Inr Mb)
  then obtain M b tr1 where ls: "local_system dev cell fa tr = (Inr (M, b), tr1)"
    by (cases "local_system dev cell fa tr"; cases Mb) simp
  let ?fs = "cell_facets (mesh dev) cell"
  from local_system_Inr[OF ls] obtain flux nrm where
    each: "\<forall>f\<in>set ?fs. fa f = Inr (flux f) \<and>
             outer_cell_normal_at_facet (mesh dev) cell f = Inr (nrm f)"
    and t1: "tr1 = tr @ map FacetAccess ?fs"
    by blast
  have c1: "\<forall>k<length ?fs. isl (fa (?fs ! k)) \<longrightarrow> isl r \<and> length tr' \<le> length tr + Suc k"
    using each by simp
  have c2: "(\<exists>f\<in>set ?fs. isl (outer_cell_normal_at_facet (mesh dev) cell f)) \<longrightarrow> isl r"
    using each by auto
  have full: "tr1 = tr @ map FacetAccess (take (length ?fs) ?fs)"
    using t1 by simp
  show ?thesis
  proof (cases "solver M b")
    case (Inl e)
    with assms ls have "r = Inl e" "tr' = tr1"
      by (simp_all add: dual_box_flux_to_cell_def)
    with c1 c2 ls Inl full show ?thesis
      by auto
  next
    case res: (Inr res)
    show ?thesis
    proof (cases "length res \<le> geometric_dimension (mesh dev)")
      case True
      with assms ls res have "r = Inr ()"
        "tr' = tr1 @ [CellSet cell (res @ drop (length res)
                         (replicate (geometric_dimension (mesh dev)) 0))]"
        by (simp_all add: dual_box_flux_to_cell_def store_into_def)
      with c1 c2 ls res t1 show ?thesis
        by auto
    next
      case False
      with assms ls res have "r = Inl OutOfBounds" "tr' = tr1"
        by (simp_all add: dual_box_flux_to_cell_def store_into_def)
      with c1 c2 ls res full False show ?thesis
        by auto
    qed
  qed
qed

theorem reconstruction_atomic_witness:
  "dual_box_flux_to_cell scalar_backend (line_device 1) 11 sample_flux [] =
     (Inr (), [FacetAccess 1, FacetAccess 2, CellSet 11 [6]]) \<and>
   (\<exists>v. [FacetAccess 1, FacetAccess 2, CellSet 11 [6]] =
          [] @ map FacetAccess (cell_facets (mesh (line_device 1)) 11) @ [CellSet 11 v]) \<and>
   dual_box_flux_to_cell scalar_backend (line_device 1) 10 broken_flux [] =
     (Inl AccessorFailure, [FacetAccess 0, FacetAccess 1]) \<and>
   1 < length (cell_facets (mesh (line_device 1)) 10) \<and>
   isl (broken_flux (cell_facets (mesh (line_device 1)) 10 ! 1)) \<and>
   length [FacetAccess 0, FacetAccess 1] \<le> length ([] :: event list) + Suc 1 \<and>
   (\<exists>k\<le>length (cell_facets (mesh (line_device 1)) 10).
       [FacetAccess 0, FacetAccess 1] =
       [] @ map FacetAccess (take k (cell_facets (mesh (line_device 1)) 10))) \<and>
   0 \<in> set (cell_facets (mesh triangle_device) 20) \<and>
   isl (outer_cell_normal_at_facet (mesh triangle_device) 20 0) \<and>
   dual_box_flux_to_cell scalar_backend triangle_device 20 sample_flux [] =
     (Inl UnsupportedDimension, [FacetAccess 0]) \<and>
   (\<exists>k\<le>length (cell_facets (mesh triangle_device) 20).
       [FacetAccess 0] = [] @ map FacetAccess (take k (cell_facets (mesh triangle_device) 20)))"
proof -
  have ok: "dual_box_flux_to_cell scalar_backend (line_device 1) 11 sample_flux [] =
     (Inr (), [FacetAccess 1, FacetAccess 2, CellSet 11 [6]])"
    by (simp add: example_defs numeral_3_eq_3)
  have bad: "dual_box_flux_to_cell scalar_backend (line_device 1) 10 broken_flux [] =
     (Inl AccessorFailure, [FacetAccess 0, FacetAccess 1])"
    by (simp add: example_defs numeral_3_eq_3)
  have tri: "dual_box_flux_to_cell scalar_backend triangle_device 20 sample_flux [] =
     (Inl UnsupportedDimension, [FacetAccess 0])"
    by (simp add: example_defs)
  have k1: "1 < length (cell_facets (mesh (line_device 1)) 10)"
    by (simp add: example_defs)
  have f1: "isl (broken_flux (cell_facets (mesh (line_device 1)) 10 ! 1))"
    by (simp add: example_defs)
  have t0: "0 \<in> set (cell_facets (mesh triangle_device) 20)"
    by (simp add: example_defs)
  have n0: "isl (outer_cell_normal_at_facet (mesh triangle_device) 20 0)"
    by (simp add: example_defs)
  have a: "\<exists>v. [FacetAccess 1, FacetAccess 2, CellSet 11 [6]] =
          [] @ map FacetAccess (cell_facets (mesh (line_device 1)) 11) @ [CellSet 11 v]"
    using reconstruction_atomic[OF ok] by blast
  have b: "length [FacetAccess 0, FacetAccess 1] \<le> length ([] :: event list) + Suc 1"
    using reconstruction_atomic[OF bad] k1 f1 by blast
  have c: "\<exists>k\<le>length (cell_facets (mesh (line_device 1)) 10).
       [FacetAccess 0, FacetAccess 1] =
       [] @ map FacetAccess (take k (cell_facets (mesh (line_device 1)) 10))"
    using reconstruction_atomic[OF bad] by simp
  have d: "\<exists>k\<le>length (cell_facets (mesh triangle_device) 20).
       [FacetAccess 0] = [] @ map FacetAccess (take k (cell_facets (mesh triangle_device) 20))"
    using reconstruction_atomic[OF tri] by simp
  from ok a bad k1 f1 b c t0 n0 tri d show ?thesis
    by (intro conjI)
qed

section \<open>Singular systems\<close>

lemma det_one: "det [[a]] = a"
  by simp

lemma det_two: "det [[a, b], [c, d]] = a * d - b * c"
  by (simp add: upt_rec numeral_2_eq_2)

lemma det_three:
  "det [[a, b, c], [d, e, f], [g, h, i]] =
     a * (e * i - f * h) - b * (d * i - f * g) + c * (d * h - e * g)"
  by (simp add: upt_rec numeral_3_eq_3 numeral_2_eq_2 algebra_simps)

lemma det_zero_row:
  assumes "\<forall>j<length row. row ! j = 0"
  shows "det (row # rows) = 0"
proof -
  have eq: "map (\<lambda>j. (- 1) ^ j * row ! j * det (map (\<lambda>r. take j r @ drop (Suc j) r) rows))
          [0..<length row] = map (\<lambda>j. 0) [0..<length row]"
    using assms by simp
  have "det (row # rows) =
      sum_list (map (\<lambda>j. (- 1) ^ j * row ! j * det (map (\<lambda>r. take j r @ drop (Suc j) r) rows))
          [0..<length row])"
    by simp
  also have "\<dots> = sum_list (map (\<lambda>j. 0) [0..<length row])"
    by (simp only: eq)
  also have "\<dots> = 0"
    by simp
  finally show ?thesis .
qed

text \<open>
  A matrix of at most three rows that maps a vector other than zero to zero has
  determinant zero: each entry of the vector times the determinant is a combination of
  the entries of the image.
\<close>

lemma kernel_two:
  fixes a b c d x0 x1 :: real
  assumes "a * x0 + b * x1 = 0" and "c * x0 + d * x1 = 0" and "x0 \<noteq> 0 \<or> x1 \<noteq> 0"
  shows "a * d - b * c = 0"
proof -
  have "x0 * (a * d - b * c) = d * (a * x0 + b * x1) - b * (c * x0 + d * x1)"
    by (simp add: algebra_simps)
  moreover have "x1 * (a * d - b * c) = a * (c * x0 + d * x1) - c * (a * x0 + b * x1)"
    by (simp add: algebra_simps)
  ultimately show ?thesis using assms by auto
qed

lemma kernel_three:
  fixes a b c d e f g h i x0 x1 x2 :: real
  assumes "a * x0 + b * x1 + c * x2 = 0" and "d * x0 + e * x1 + f * x2 = 0"
    and "g * x0 + h * x1 + i * x2 = 0" and "x0 \<noteq> 0 \<or> x1 \<noteq> 0 \<or> x2 \<noteq> 0"
  shows "a * (e * i - f * h) - b * (d * i - f * g) + c * (d * h - e * g) = 0"
proof -
  let ?D = "a * (e * i - f * h) - b * (d * i - f * g) + c * (d * h - e * g)"
  let ?r0 = "a * x0 + b * x1 + c * x2"
  let ?r1 = "d * x0 + e * x1 + f * x2"
  let ?r2 = "g * x0 + h * x1 + i * x2"
  have "x0 * ?D = ?r0 * (e * i - f * h) - ?r1 * (b * i - c * h) + ?r2 * (b * f - c * e)"
    by (simp add: algebra_simps)
  moreover have "x1 * ?D = - ?r0 * (d * i - f * g) + ?r1 * (a * i - c * g) - ?r2 * (a * f - c * d)"
    by (simp add: algebra_simps)
  moreover have "x2 * ?D = ?r0 * (d * h - e * g) - ?r1 * (a * h - b * g) + ?r2 * (a * e - b * d)"
    by (simp add: algebra_simps)
  ultimately have "x0 * ?D = 0" "x1 * ?D = 0" "x2 * ?D = 0"
    using assms(1-3) by simp_all
  then show ?thesis using assms(4) by auto
qed

lemma det_kernel:
  fixes m :: "nat \<Rightarrow> nat \<Rightarrow> real"
  assumes "gd \<le> 3"
    and "\<forall>i<gd. (\<Sum>j<gd. m i j * x j) = 0"
    and "\<exists>i<gd. x i \<noteq> 0"
  shows "det (map (\<lambda>i. map (\<lambda>j. m i j) [0..<gd]) [0..<gd]) = 0"
proof -
  from assms(3) have "0 < gd"
    by auto
  with assms(1) consider "gd = 1" | "gd = 2" | "gd = 3"
    by arith
  then show ?thesis
  proof cases
    case 1
    with assms(2,3) have "m 0 0 = 0" by simp
    with 1 show ?thesis by simp
  next
    case 2
    have M: "map (\<lambda>i. map (\<lambda>j. m i j) [0..<gd]) [0..<gd] = [[m 0 0, m 0 1], [m 1 0, m 1 1]]"
      using 2 by (simp add: upt_rec numeral_2_eq_2)
    have r0: "m 0 0 * x 0 + m 0 1 * x 1 = 0"
      using assms(2)[rule_format, of 0] 2 by (simp add: numeral_2_eq_2)
    have r1: "m 1 0 * x 0 + m 1 1 * x 1 = 0"
      using assms(2)[rule_format, of 1] 2 by (simp add: numeral_2_eq_2)
    have nz: "x 0 \<noteq> 0 \<or> x 1 \<noteq> 0"
      using assms(3) 2 by (auto simp: numeral_2_eq_2 less_Suc_eq)
    show ?thesis
      unfolding M det_two using r0 r1 nz by (rule kernel_two)
  next
    case 3
    have M: "map (\<lambda>i. map (\<lambda>j. m i j) [0..<gd]) [0..<gd] =
               [[m 0 0, m 0 1, m 0 2], [m 1 0, m 1 1, m 1 2], [m 2 0, m 2 1, m 2 2]]"
      using 3 by (simp add: upt_rec numeral_3_eq_3 numeral_2_eq_2)
    have r0: "m 0 0 * x 0 + m 0 1 * x 1 + m 0 2 * x 2 = 0"
      using assms(2)[rule_format, of 0] 3 by (simp add: numeral_3_eq_3 numeral_2_eq_2)
    have r1: "m 1 0 * x 0 + m 1 1 * x 1 + m 1 2 * x 2 = 0"
      using assms(2)[rule_format, of 1] 3 by (simp add: numeral_3_eq_3 numeral_2_eq_2)
    have r2: "m 2 0 * x 0 + m 2 1 * x 1 + m 2 2 * x 2 = 0"
      using assms(2)[rule_format, of 2] 3 by (simp add: numeral_3_eq_3 numeral_2_eq_2)
    have nz: "x 0 \<noteq> 0 \<or> x 1 \<noteq> 0 \<or> x 2 \<noteq> 0"
      using assms(3) 3 by (auto simp: numeral_3_eq_3 numeral_2_eq_2 less_Suc_eq)
    show ?thesis
      unfolding M det_three using r0 r1 r2 nz by (rule kernel_three)
  qed
qed

text \<open>
  The matrix of the sums of the products \<open>p f i * p f j\<close> maps to zero every vector that
  is orthogonal to all the \<open>p f\<close>.
\<close>

lemma sum_sum_list_swap:
  fixes g :: "nat \<Rightarrow> 'a \<Rightarrow> real"
  shows "(\<Sum>j<n. \<Sum>f\<leftarrow>fs. g j f) = (\<Sum>f\<leftarrow>fs. \<Sum>j<n. g j f)"
  by (induction fs) (simp_all add: sum.distrib)

lemma outer_products_kernel:
  fixes p :: "'a \<Rightarrow> nat \<Rightarrow> real"
  assumes "\<forall>f\<in>set fs. (\<Sum>j<n. p f j * x j) = 0"
  shows "(\<Sum>j<n. (\<Sum>f\<leftarrow>fs. p f i * p f j) * x j) = 0"
proof -
  have "(\<Sum>j<n. (\<Sum>f\<leftarrow>fs. p f i * p f j) * x j) = (\<Sum>j<n. \<Sum>f\<leftarrow>fs. p f i * p f j * x j)"
    by (simp add: sum_list_mult_const)
  also have "\<dots> = (\<Sum>f\<leftarrow>fs. \<Sum>j<n. p f i * p f j * x j)"
    by (rule sum_sum_list_swap)
  also have "\<dots> = (\<Sum>f\<leftarrow>fs. p f i * (\<Sum>j<n. p f j * x j))"
    by (simp add: sum_distrib_left mult.assoc)
  also have "\<dots> = (\<Sum>f\<leftarrow>fs. 0)"
    using assms by (intro arg_cong[where f = sum_list] map_cong) simp_all
  finally show ?thesis by simp
qed

text \<open>
  The matrix a cell hands to the solver is singular as soon as a direction \<open>x\<close> other
  than zero is orthogonal to the normals of all its facets.
\<close>

lemma local_system_singular:
  assumes ls: "local_system dev cell fa tr = (Inr (M, b), tr')"
    and nz: "\<exists>i<geometric_dimension (mesh dev). x ! i \<noteq> 0"
    and orth: "\<forall>f\<in>set (cell_facets (mesh dev) cell). \<forall>n.
             outer_cell_normal_at_facet (mesh dev) cell f = Inr n \<longrightarrow>
             (\<Sum>i<geometric_dimension (mesh dev). n ! i * x ! i) = 0"
  shows "det M = 0"
proof -
  let ?fs = "cell_facets (mesh dev) cell"
  let ?gd = "geometric_dimension (mesh dev)"
  from local_system_Inr[OF ls] obtain nrm where
    nrm: "\<forall>f\<in>set ?fs. outer_cell_normal_at_facet (mesh dev) cell f = Inr (nrm f)"
    and long: "\<forall>f\<in>set ?fs. ?gd \<le> length (nrm f)"
    and M: "M = map (\<lambda>i. map (\<lambda>j. \<Sum>f\<leftarrow>?fs. nrm f ! i * nrm f ! j) [0..<?gd]) [0..<?gd]"
    by blast
  show ?thesis
  proof (cases "?fs = []")
    case True
    from nz have "0 < ?gd" by auto
    then have "[0..<?gd] = 0 # [Suc 0..<?gd]"
      by (simp add: upt_conv_Cons)
    then have "M = map (\<lambda>j. \<Sum>f\<leftarrow>?fs. nrm f ! 0 * nrm f ! j) [0..<?gd] #
                   map (\<lambda>i. map (\<lambda>j. \<Sum>f\<leftarrow>?fs. nrm f ! i * nrm f ! j) [0..<?gd]) [Suc 0..<?gd]"
      unfolding M by simp
    moreover have "\<forall>j<length (map (\<lambda>j. \<Sum>f\<leftarrow>?fs. nrm f ! 0 * nrm f ! j) [0..<?gd]).
                     map (\<lambda>j. \<Sum>f\<leftarrow>?fs. nrm f ! 0 * nrm f ! j) [0..<?gd] ! j = 0"
      using True by simp
    ultimately show ?thesis
      by (simp only: det_zero_row)
  next
    case False
    then obtain f where f: "f \<in> set ?fs"
      by (cases ?fs) auto
    with nrm have "length (nrm f) = 3"
      by (intro normal_has_three_entries[of "mesh dev" cell f]) simp
    with long f have le: "?gd \<le> 3"
      by fastforce
    have "\<forall>f\<in>set ?fs. (\<Sum>j<?gd. nrm f ! j * x ! j) = 0"
      using orth nrm by blast
    then have rows: "\<forall>i<?gd. (\<Sum>j<?gd. (\<Sum>f\<leftarrow>?fs. nrm f ! i * nrm f ! j) * x ! j) = 0"
      by (intro allI impI outer_products_kernel[where p = "\<lambda>f j. nrm f ! j" and x = "\<lambda>j. x ! j"])
    show ?thesis
      unfolding M
      by (rule det_kernel[where m = "\<lambda>i j. \<Sum>f\<leftarrow>?fs. nrm f ! i * nrm f ! j" and x = "\<lambda>j. x ! j",
            OF le rows nz])
  qed
qed

text \<open>
  C4: let a direction \<open>x\<close> other than zero be orthogonal to the normals of all facets of
  a cell, so that the facets provide fewer independent normals than the mesh has
  geometric dimensions. Then the matrix \<open>M\<close> assembled for the cell is singular, and with
  a solver that fails on singular matrices \<open>dual_box_flux_to_cell\<close> fails with
  \<open>SingularSystem\<close>; the cell setter has not been called.
\<close>

theorem singular_system_fails:
  assumes "local_system dev cell fa tr = (Inr (M, b), tr')"
    and "length x = geometric_dimension (mesh dev)"
    and "\<exists>i<geometric_dimension (mesh dev). x ! i \<noteq> 0"
    and "\<forall>f\<in>set (cell_facets (mesh dev) cell). \<forall>n.
             outer_cell_normal_at_facet (mesh dev) cell f = Inr n \<longrightarrow>
             (\<Sum>i<geometric_dimension (mesh dev). n ! i * x ! i) = 0"
  shows "det M = 0 \<and>
         dual_box_flux_to_cell (solve backend) dev cell fa tr = (Inl SingularSystem, tr') \<and>
         filter is_CellSet tr' = filter is_CellSet tr"
proof -
  have d: "det M = 0"
    using assms(1,3,4) by (rule local_system_singular)
  from local_system_Inr[OF assms(1)] have "tr' = tr @ map FacetAccess (cell_facets (mesh dev) cell)"
    by blast
  then have "filter is_CellSet tr' = filter is_CellSet tr"
    by (simp add: filter_empty_conv)
  with d assms(1) show ?thesis
    by (simp add: dual_box_flux_to_cell_def solve_def)
qed

theorem singular_system_fails_witness:
  "local_system (line_device 2) 11 sample_flux [] =
     (Inr ([[2, 0], [0, 0]], [12, 0]), [FacetAccess 1, FacetAccess 2]) \<and>
   length [0 :: real, 1] = geometric_dimension (mesh (line_device 2)) \<and>
   [0 :: real, 1] ! 1 \<noteq> 0 \<and>
   det [[2, 0], [0, 0]] = 0 \<and>
   dual_box_flux_to_cell (solve scalar_backend) (line_device 2) 11 sample_flux [] =
     (Inl SingularSystem, [FacetAccess 1, FacetAccess 2]) \<and>
   filter is_CellSet [FacetAccess 1, FacetAccess 2] = filter is_CellSet []"
proof -
  have l: "local_system (line_device 2) 11 sample_flux [] =
     (Inr ([[2, 0], [0, 0]], [12, 0]), [FacetAccess 1, FacetAccess 2])"
    by (simp add: example_defs numeral_3_eq_3 numeral_2_eq_2 upt_rec)
  have len: "length [0 :: real, 1] = geometric_dimension (mesh (line_device 2))"
    by (simp add: example_defs)
  have nz: "\<exists>i<geometric_dimension (mesh (line_device 2)). [0 :: real, 1] ! i \<noteq> 0"
    by (intro exI[of _ 1]) (simp add: example_defs)
  have orth: "\<forall>f\<in>set (cell_facets (mesh (line_device 2)) 11). \<forall>n.
             outer_cell_normal_at_facet (mesh (line_device 2)) 11 f = Inr n \<longrightarrow>
             (\<Sum>i<geometric_dimension (mesh (line_device 2)). n ! i * [0 :: real, 1] ! i) = 0"
    by (auto simp: example_defs numeral_3_eq_3 numeral_2_eq_2)
  have x1: "[0 :: real, 1] ! 1 \<noteq> 0"
    by simp
  from singular_system_fails[OF l len nz orth, of scalar_backend] have
    "det [[2, 0], [0, 0]] = 0 \<and>
     dual_box_flux_to_cell (solve scalar_backend) (line_device 2) 11 sample_flux [] =
       (Inl SingularSystem, [FacetAccess 1, FacetAccess 2]) \<and>
     filter is_CellSet [FacetAccess 1, FacetAccess 2] = filter is_CellSet []" .
  with l len x1 show ?thesis
    by blast
qed

end
